theory Spec2Isabelle
  imports Complex_Main "HOL-Library.Multiset" "HOL-Library.Sublist"
    "HOL-Library.Char_ord" "HOL-Library.List_Lexorder"
begin

section \<open>Airport density and accessibility: the embedded program\<close>

text \<open>
  The definitions below follow \<^verbatim>\<open>final-project.py\<close>. Conventions of the embedding:
  \<^item> a Python \<^verbatim>\<open>float\<close> is a \<^typ>\<open>real\<close>: arithmetic is exact, rounding is not part
    of the model;
  \<^item> a missing cell of a pandas frame (NaN) in a column of strings is \<open>None\<close>;
  \<^item> an exception is the \<open>Inl\<close> branch of a sum;
  \<^item> a pandas DataFrame is the list of its rows in frame order, each paired with its
    index label.
\<close>

subsection \<open>Errors\<close>

datatype py_error = ValueError | KeyError

type_synonym 'a result = "py_error + 'a"

subsection \<open>Geodesic distance\<close>

text \<open>\<^verbatim>\<open>math.radians\<close>, \<^verbatim>\<open>math.sqrt\<close> and \<^verbatim>\<open>math.asin\<close>; the last two raise
  \<^verbatim>\<open>ValueError\<close> (math domain error) outside their domain.\<close>

definition radians :: "real \<Rightarrow> real" where
  "radians x = x * (pi / 180)"

definition math_sqrt :: "real \<Rightarrow> real result" where
  "math_sqrt x = (if x < 0 then Inl ValueError else Inr (sqrt x))"

definition math_asin :: "real \<Rightarrow> real result" where
  "math_asin x = (if x < - 1 \<or> 1 < x then Inl ValueError else Inr (arcsin x))"

text \<open>
  \<^verbatim>\<open>def haversine_km(lat1, lon1, lat2, lon2, radius_km=6371.0)\<close>.
  The optional last parameter is an \<open>option\<close>: \<open>None\<close> is a call that leaves it out.
\<close>

definition haversine_km :: "real \<Rightarrow> real \<Rightarrow> real \<Rightarrow> real \<Rightarrow> real option \<Rightarrow> real result" where
  "haversine_km lat1 lon1 lat2 lon2 radius_opt =
     (let radius_km = (case radius_opt of None \<Rightarrow> 6371 | Some R \<Rightarrow> R);
          lat1r = radians lat1; lon1r = radians lon1;
          lat2r = radians lat2; lon2r = radians lon2;
          dlat = lat2r - lat1r;
          dlon = lon2r - lon1r;
          a = (sin (dlat / 2))\<^sup>2 + cos lat1r * cos lat2r * (sin (dlon / 2))\<^sup>2
      in case math_sqrt a of
           Inl e \<Rightarrow> Inl e
         | Inr s \<Rightarrow> (case math_asin s of
                       Inl e \<Rightarrow> Inl e
                     | Inr t \<Rightarrow> Inr (radius_km * 2 * t)))"

text \<open>The contract of the specification, written from its formula: with every input
  converted to radians, \<open>a = sin\<^sup>2(\<Delta>lat/2) + cos(lat1) cos(lat2) sin\<^sup>2(\<Delta>lon/2)\<close> and
  \<open>d = 2 R asin(\<surd>a)\<close>.\<close>

definition spec_haversine_a :: "real \<Rightarrow> real \<Rightarrow> real \<Rightarrow> real \<Rightarrow> real" where
  "spec_haversine_a lat1 lon1 lat2 lon2 =
     (sin ((radians lat2 - radians lat1) / 2))\<^sup>2
     + cos (radians lat1) * cos (radians lat2) * (sin ((radians lon2 - radians lon1) / 2))\<^sup>2"

definition spec_great_circle :: "real \<Rightarrow> real \<Rightarrow> real \<Rightarrow> real \<Rightarrow> real \<Rightarrow> real" where
  "spec_great_circle R lat1 lon1 lat2 lon2 =
     2 * R * arcsin (sqrt (spec_haversine_a lat1 lon1 lat2 lon2))"

subsection \<open>Geodesic distance in double precision\<close>












subsection \<open>Frames of airports\<close>

text \<open>
  A row of the frame that \<^verbatim>\<open>load_airports\<close> returns. The text columns may hold NaN;
  the two coordinates are present in every row, since \<^verbatim>\<open>load_airports\<close> drops the
  rows that miss one.
\<close>

record airport =
  name :: "string option"
  airport_type :: "string option"
  continent :: "string option"
  iso_country :: "string option"
  municipality :: "string option"
  latitude_deg :: real
  longitude_deg :: real
  country_name :: "string option"
  is_large :: nat

type_synonym dataframe = "(int \<times> airport) list"

text \<open>A frame with the added column \<^verbatim>\<open>distance_km\<close>.\<close>

type_synonym dist_frame = "(int \<times> airport \<times> real) list"




text \<open>The index labels of a frame are unique: so it is for a frame read by
  \<^verbatim>\<open>pd.read_csv\<close> and for every frame cut from it by a boolean mask.\<close>

definition unique_index :: "(int \<times> 'r) list \<Rightarrow> bool" where
  "unique_index df = distinct (map fst df)"

text \<open>\<^verbatim>\<open>df[mask]\<close>: the rows where the mask holds, labels kept.\<close>

definition boolean_mask :: "('r \<Rightarrow> bool) \<Rightarrow> (int \<times> 'r) list \<Rightarrow> (int \<times> 'r) list" where
  "boolean_mask P df = filter (\<lambda>(idx, r). P r) df"

text \<open>\<^verbatim>\<open>xs[:k]\<close>: a negative \<open>k\<close> counts from the end.\<close>

definition slice_to :: "int \<Rightarrow> 'a list \<Rightarrow> 'a list" where
  "slice_to k xs =
     (if 0 \<le> k then take (nat k) xs else take (length xs - nat (- k)) xs)"

text \<open>
  \<^verbatim>\<open>df.loc[labels]\<close> with a list of labels: for each requested label, in the order of
  the request, every row that carries it; \<^verbatim>\<open>KeyError\<close> when a label is not in the
  index.
\<close>

definition loc :: "(int \<times> 'r) list \<Rightarrow> int list \<Rightarrow> (int \<times> 'r) list result" where
  "loc df labels =
     (if \<exists>l \<in> set labels. l \<notin> set (map fst df) then Inl KeyError
      else Inr (concat (map (\<lambda>l. filter (\<lambda>(idx, r). idx = l) df) labels)))"

text \<open>\<^verbatim>\<open>df["distance_km"] = values\<close> with a list: \<^verbatim>\<open>ValueError\<close> when the list
  has not one value per row.\<close>

definition set_distance_km :: "dataframe \<Rightarrow> real list \<Rightarrow> dist_frame result" where
  "set_distance_km df ds =
     (if length ds \<noteq> length df then Inl ValueError
      else Inr (map2 (\<lambda>(idx, r) d. (idx, r, d)) df ds))"

subsection \<open>Nearest-neighbour search\<close>

text \<open>\<^verbatim>\<open>compute_distances_to_pin\<close>: the loop over \<^verbatim>\<open>df.iterrows()\<close>; an exception
  of \<open>haversine_km\<close> leaves the loop.\<close>

fun compute_distances_to_pin :: "dataframe \<Rightarrow> real \<Rightarrow> real \<Rightarrow> (int \<times> real) list result" where
  "compute_distances_to_pin [] pin_lat pin_lon = Inr []"
| "compute_distances_to_pin ((idx, r) # rest) pin_lat pin_lon =
     (case haversine_km pin_lat pin_lon (latitude_deg r) (longitude_deg r) None of
        Inl e \<Rightarrow> Inl e
      | Inr d \<Rightarrow> (case compute_distances_to_pin rest pin_lat pin_lon of
                    Inl e \<Rightarrow> Inl e
                  | Inr distances \<Rightarrow> Inr ((idx, d) # distances)))"

text \<open>\<^verbatim>\<open>find_closest_airports(df, pin_lat, pin_lon, k=3)\<close>. Python's \<^verbatim>\<open>list.sort\<close> is
  stable, as \<open>sort_key\<close> is.\<close>

definition find_closest_airports :: "dataframe \<Rightarrow> real \<Rightarrow> real \<Rightarrow> int \<Rightarrow> dist_frame result" where
  "find_closest_airports df pin_lat pin_lon k =
     (case compute_distances_to_pin df pin_lat pin_lon of
        Inl e \<Rightarrow> Inl e
      | Inr distances \<Rightarrow>
          (let dist_list = sort_key snd distances;
               closest_idx = map fst (slice_to k dist_list)
           in case loc df closest_idx of
                Inl e \<Rightarrow> Inl e
              | Inr closest_df \<Rightarrow> set_distance_km closest_df (map snd (slice_to k dist_list))))"

subsection \<open>Radius search (in \<^verbatim>\<open>main\<close>)\<close>

text \<open>The dict comprehension \<^verbatim>\<open>{idx: d for idx, d in distances}\<close>: a later pair
  overwrites an earlier one with the same key.\<close>

definition dict_of :: "('k \<times> 'v) list \<Rightarrow> ('k \<rightharpoonup> 'v)" where
  "dict_of kvs = foldl (\<lambda>m (k, v). m(k \<mapsto> v)) Map.empty kvs"


text \<open>
  \<^verbatim>\<open>sort_values\<close> of pandas sorts with quicksort unless told otherwise, which is not
  stable: the routine is a parameter \<open>srt\<close> of the model, known only to return a
  permutation of its input that is ordered by the key (ascending or descending).
\<close>

definition is_sort_values :: "('a \<Rightarrow> 'k::linorder) \<Rightarrow> bool \<Rightarrow> ('a list \<Rightarrow> 'a list) \<Rightarrow> bool" where
  "is_sort_values key ascending srt \<longleftrightarrow>
     (\<forall>xs. mset (srt xs) = mset xs
           \<and> (if ascending then sorted (map key (srt xs)) else sorted (rev (map key (srt xs)))))"


subsection \<open>Counts by country\<close>

text \<open>
  \<^verbatim>\<open>df_filtered.groupby("country_name")["name"].count().reset_index(name="airport_count")\<close>:
  one group per country name that occurs, in ascending order of the names; pandas
  leaves the rows with a missing group key out (\<^verbatim>\<open>dropna=True\<close>), and \<^verbatim>\<open>count()\<close>
  counts the rows of the group whose \<^verbatim>\<open>name\<close> is not missing.
\<close>

definition groupby_country_count :: "dataframe \<Rightarrow> (string \<times> nat) list" where
  "groupby_country_count df =
     (let keys = sort (remdups (List.map_filter (\<lambda>(idx, r). country_name r) df))
      in map (\<lambda>c. (c, length (filter (\<lambda>(idx, r). country_name r = Some c \<and> name r \<noteq> None) df)))
             keys)"

text \<open>\<^verbatim>\<open>counts.sort_values("airport_count", ascending=False)\<close>.\<close>

definition country_counts ::
  "((string \<times> nat) list \<Rightarrow> (string \<times> nat) list) \<Rightarrow> dataframe \<Rightarrow> (string \<times> nat) list" where
  "country_counts srt df = srt (groupby_country_count df)"

text \<open>\<^verbatim>\<open>get_country_min_max(counts_df)\<close>: the first and the last row of the frame,
  \<^verbatim>\<open>(None, None)\<close> for an empty one.\<close>

definition get_country_min_max ::
  "(string \<times> nat) list \<Rightarrow> (string \<times> nat) option \<times> (string \<times> nat) option" where
  "get_country_min_max counts_df =
     (if counts_df = [] then (None, None)
      else (Some (hd counts_df), Some (last counts_df)))"

subsection \<open>Loading\<close>

text \<open>\<^verbatim>\<open>str.upper\<close> and \<^verbatim>\<open>str.lower\<close> on the ASCII letters; every other character is
  left as it is.\<close>

definition upper_char :: "char \<Rightarrow> char" where
  "upper_char c =
     (case map_of (zip ''abcdefghijklmnopqrstuvwxyz'' ''ABCDEFGHIJKLMNOPQRSTUVWXYZ'') c of
        Some u \<Rightarrow> u | None \<Rightarrow> c)"

definition lower_char :: "char \<Rightarrow> char" where
  "lower_char c =
     (case map_of (zip ''ABCDEFGHIJKLMNOPQRSTUVWXYZ'' ''abcdefghijklmnopqrstuvwxyz'') c of
        Some l \<Rightarrow> l | None \<Rightarrow> c)"

definition str_upper :: "string \<Rightarrow> string" where
  "str_upper s = map upper_char s"

definition str_lower :: "string \<Rightarrow> string" where
  "str_lower s = map lower_char s"

text \<open>The \<^verbatim>\<open>.str.upper()\<close> of a column: a missing cell stays missing.\<close>

definition series_str_upper :: "string option \<Rightarrow> string option" where
  "series_str_upper c = map_option str_upper c"

text \<open>\<^verbatim>\<open>needle in haystack\<close> on strings.\<close>

fun starts_with :: "string \<Rightarrow> string \<Rightarrow> bool" where
  "starts_with [] s = True"
| "starts_with (p # ps) [] = False"
| "starts_with (p # ps) (c # cs) = (p = c \<and> starts_with ps cs)"

fun str_contains :: "string \<Rightarrow> string \<Rightarrow> bool" where
  "str_contains needle [] = starts_with needle []"
| "str_contains needle (c # cs) = (starts_with needle (c # cs) \<or> str_contains needle cs)"

text \<open>\<^verbatim>\<open>str(t)\<close> of a cell: the text itself, \<^verbatim>\<open>nan\<close> for a missing one.\<close>

definition str_of_cell :: "string option \<Rightarrow> string" where
  "str_of_cell t = (case t of None \<Rightarrow> ''nan'' | Some s \<Rightarrow> s)"

text \<open>A row of \<^verbatim>\<open>airport-codes.csv\<close> as \<^verbatim>\<open>pd.read_csv\<close> delivers it, once the
  coordinates are two numeric columns; a row of the country-code table is a pair of
  its alpha-2 code and its English short name.\<close>

record csv_airport =
  csv_name :: "string option"
  csv_type :: "string option"
  csv_continent :: "string option"
  csv_iso_country :: "string option"
  csv_municipality :: "string option"
  csv_latitude_deg :: "real option"
  csv_longitude_deg :: "real option"

text \<open>\<^verbatim>\<open>pd.read_csv\<close> labels the rows 0, 1, 2, ...\<close>

definition range_index :: "'r list \<Rightarrow> (int \<times> 'r) list" where
  "range_index rows = zip (map int [0..<length rows]) rows"

text \<open>\<^verbatim>\<open>add_large_flag\<close>.\<close>

definition large_flag :: "string option \<Rightarrow> nat" where
  "large_flag t = (if str_contains ''large'' (str_lower (str_of_cell t)) then 1 else 0)"

text \<open>
  \<^verbatim>\<open>load_airports\<close>, from the two tables read: the rows without a coordinate are
  dropped (\<^verbatim>\<open>dropna\<close>), \<^verbatim>\<open>iso_map = dict(zip(codes.str.upper(), names))\<close> is built, and
  \<^verbatim>\<open>country_name\<close> is \<^verbatim>\<open>iso_map.get(c, c)\<close> at the upper-cased code \<open>c\<close>.
  A missing code is a key like any other (NaN is one object in pandas).
\<close>

definition iso_map_of :: "(string option \<times> string option) list \<Rightarrow> (string option \<rightharpoonup> string option)" where
  "iso_map_of iso_rows = dict_of (map (\<lambda>(code, nm). (series_str_upper code, nm)) iso_rows)"

definition resolve_country :: "(string option \<rightharpoonup> string option) \<Rightarrow> string option \<Rightarrow> string option" where
  "resolve_country iso_map code =
     (let c = series_str_upper code in case iso_map c of Some nm \<Rightarrow> nm | None \<Rightarrow> c)"

definition load_airports ::
  "csv_airport list \<Rightarrow> (string option \<times> string option) list \<Rightarrow> dataframe" where
  "load_airports csv_rows iso_rows =
     (let iso_map = iso_map_of iso_rows
      in List.map_filter
           (\<lambda>(idx, r).
              case (csv_latitude_deg r, csv_longitude_deg r) of
                (Some lat, Some lon) \<Rightarrow>
                  Some (idx, \<lparr> name = csv_name r, airport_type = csv_type r,
                               continent = csv_continent r, iso_country = csv_iso_country r,
                               municipality = csv_municipality r,
                               latitude_deg = lat, longitude_deg = lon,
                               country_name = resolve_country iso_map (csv_iso_country r),
                               is_large = large_flag (csv_type r) \<rparr>)
              | _ \<Rightarrow> None)
           (range_index csv_rows))"

subsection \<open>Auxiliary notions of the proofs\<close>



subsection \<open>A small frame and a pin, for concrete instances\<close>

definition sample_row :: "string \<Rightarrow> real \<Rightarrow> real \<Rightarrow> airport" where
  "sample_row n lat lon =
     \<lparr> name = Some n, airport_type = Some ''large_airport'', continent = Some ''EU'',
       iso_country = Some ''GR'', municipality = None,
       latitude_deg = lat, longitude_deg = lon,
       country_name = Some ''Greece'', is_large = 1 \<rparr>"

definition sample_frame :: dataframe where
  "sample_frame =
     [(0, sample_row ''Thessaloniki Macedonia'' 40.5197 22.9709),
      (2, sample_row ''Athens Eleftherios Venizelos'' 37.9364 23.9445),
      (5, sample_row ''Heraklion Nikos Kazantzakis'' 35.3397 25.1803)]"

text \<open>Athens, from \<^verbatim>\<open>WORLD_CITIES\<close>.\<close>

definition athens_lat :: real where
  "athens_lat = 37.9838"

definition athens_lon :: real where
  "athens_lon = 23.7275"


text \<open>A row of the airport table with a chosen name and country code cell, and a
  country-code table.\<close>

definition sample_csv_row :: "string \<Rightarrow> string option \<Rightarrow> csv_airport" where
  "sample_csv_row n code =
     \<lparr> csv_name = Some n, csv_type = Some ''large_airport'', csv_continent = Some ''EU'',
       csv_iso_country = code, csv_municipality = None,
       csv_latitude_deg = Some 42.5728, csv_longitude_deg = Some 21.0358 \<rparr>"

definition sample_iso_rows :: "(string option \<times> string option) list" where
  "sample_iso_rows = [(Some ''GR'', Some ''Greece''), (Some ''FR'', Some ''France'')]"

section \<open>Properties of the geodesic distance\<close>

lemma cos_product_half_angles:
  fixes u v :: real
  shows "cos (v - u) * cos (v + u) = (cos v)\<^sup>2 - (sin u)\<^sup>2"
proof -
  have "cos (v - u) * cos (v + u)
      = (cos v * cos u + sin v * sin u) * (cos v * cos u - sin v * sin u)"
    by (simp only: cos_add cos_diff)
  also have "\<dots> = (cos v)\<^sup>2 * (cos u)\<^sup>2 - (sin v)\<^sup>2 * (sin u)\<^sup>2"
    by (simp add: power2_eq_square algebra_simps)
  also have "\<dots> = (cos v)\<^sup>2 * (1 - (sin u)\<^sup>2) - (1 - (cos v)\<^sup>2) * (sin u)\<^sup>2"
    by (simp only: cos_squared_eq [of u] sin_squared_eq [of v])
  also have "\<dots> = (cos v)\<^sup>2 - (sin u)\<^sup>2"
    by (simp add: algebra_simps)
  finally show ?thesis .
qed

lemma spec_haversine_a_convex:
  "spec_haversine_a lat1 lon1 lat2 lon2 =
     (sin ((radians lat2 - radians lat1) / 2))\<^sup>2 * (1 - (sin ((radians lon2 - radians lon1) / 2))\<^sup>2)
     + (cos ((radians lat1 + radians lat2) / 2))\<^sup>2 * (sin ((radians lon2 - radians lon1) / 2))\<^sup>2"
proof -
  define u where "u = (radians lat2 - radians lat1) / 2"
  define v where "v = (radians lat1 + radians lat2) / 2"
  have l1: "radians lat1 = v - u" and l2: "radians lat2 = v + u"
    by (simp_all add: u_def v_def field_simps)
  define s where "s = (sin ((radians lon2 - radians lon1) / 2))\<^sup>2"
  have cc: "cos (radians lat1) * cos (radians lat2) = (cos v)\<^sup>2 - (sin u)\<^sup>2"
    unfolding l1 l2 by (rule cos_product_half_angles)
  have "spec_haversine_a lat1 lon1 lat2 lon2 = (sin u)\<^sup>2 + (cos (radians lat1) * cos (radians lat2)) * s"
    by (simp add: spec_haversine_a_def u_def s_def)
  also have "\<dots> = (sin u)\<^sup>2 + ((cos v)\<^sup>2 - (sin u)\<^sup>2) * s"
    by (simp only: cc)
  also have "\<dots> = (sin u)\<^sup>2 * (1 - s) + (cos v)\<^sup>2 * s"
    by (simp add: algebra_simps)
  finally show ?thesis
    by (simp only: u_def v_def s_def)
qed

lemma sin_squared_le_one: "(sin (x::real))\<^sup>2 \<le> 1"
  by (simp add: sin_squared_eq)

lemma cos_squared_le_one: "(cos (x::real))\<^sup>2 \<le> 1"
  by (simp add: cos_squared_eq)

lemma spec_haversine_a_nonneg: "0 \<le> spec_haversine_a lat1 lon1 lat2 lon2"
  unfolding spec_haversine_a_convex
  by (intro add_nonneg_nonneg mult_nonneg_nonneg) (simp_all add: sin_squared_le_one)

lemma spec_haversine_a_le_one: "spec_haversine_a lat1 lon1 lat2 lon2 \<le> 1"
proof -
  define s where "s = (sin ((radians lon2 - radians lon1) / 2))\<^sup>2"
  define p where "p = (sin ((radians lat2 - radians lat1) / 2))\<^sup>2"
  define q where "q = (cos ((radians lat1 + radians lat2) / 2))\<^sup>2"
  have s: "0 \<le> s" "s \<le> 1" by (simp_all add: s_def sin_squared_le_one)
  have p: "p \<le> 1" by (simp add: p_def sin_squared_le_one)
  have q: "q \<le> 1" by (simp add: q_def cos_squared_le_one)
  have "p * (1 - s) \<le> 1 * (1 - s)"
    using p s by (intro mult_right_mono) simp_all
  moreover have "q * s \<le> 1 * s"
    using q s by (intro mult_right_mono) simp_all
  ultimately have "p * (1 - s) + q * s \<le> 1" by simp
  then show ?thesis
    unfolding spec_haversine_a_convex p_def q_def s_def .
qed

lemma haversine_km_value:
  "haversine_km lat1 lon1 lat2 lon2 radius_opt =
     Inr (spec_great_circle (case radius_opt of None \<Rightarrow> 6371 | Some R \<Rightarrow> R) lat1 lon1 lat2 lon2)"
proof -
  let ?a = "spec_haversine_a lat1 lon1 lat2 lon2"
  have a0: "0 \<le> ?a" by (rule spec_haversine_a_nonneg)
  have a1: "?a \<le> 1" by (rule spec_haversine_a_le_one)
  have s0: "0 \<le> sqrt ?a" using a0 by simp
  have s1: "sqrt ?a \<le> 1" using a1 by simp
  have sq: "math_sqrt ?a = Inr (sqrt ?a)"
    using a0 by (simp add: math_sqrt_def)
  have s2: "\<not> sqrt ?a < - 1" using s0 by linarith
  have asn: "math_asin (sqrt ?a) = Inr (arcsin (sqrt ?a))"
    using s1 s2 by (simp add: math_asin_def)
  show ?thesis
    unfolding haversine_km_def Let_def spec_haversine_a_def [symmetric]
    by (simp add: sq asn spec_great_circle_def)
qed


text \<open>
  Claim C4. The distance is symmetric, \<open>distance(A, B) = distance(B, A)\<close>, and the
  distance from a point to itself is 0 (for every radius, the default included).
\<close>

theorem haversine_km_symmetric_zero:
  "haversine_km lat1 lon1 lat2 lon2 radius_opt = haversine_km lat2 lon2 lat1 lon1 radius_opt
   \<and> haversine_km lat1 lon1 lat1 lon1 radius_opt = Inr 0"
proof -
  have flip: "sin ((y - x) / 2) = - sin ((x - y) / 2)" for x y :: real
  proof -
    have "(y - x) / 2 = - ((x - y) / 2)" by (simp add: field_simps)
    then show ?thesis by (simp only: sin_minus)
  qed
  have "spec_haversine_a lat1 lon1 lat2 lon2 = spec_haversine_a lat2 lon2 lat1 lon1"
    unfolding spec_haversine_a_def
    by (simp add: flip [of "radians lat1" "radians lat2"] flip [of "radians lon1" "radians lon2"])
  moreover have "spec_haversine_a lat1 lon1 lat1 lon1 = 0"
    by (simp add: spec_haversine_a_def)
  ultimately show ?thesis
    by (simp add: haversine_km_value spec_great_circle_def)
qed

section \<open>The intermediate value of the geodesic distance\<close>

subsection \<open>Rounding to a double\<close>




































subsection \<open>In exact arithmetic\<close>



section \<open>Properties of the nearest-neighbour search\<close>
















lemma sorted_map_take:
  assumes "sorted (map f xs)"
  shows "sorted (map f (take n xs))"
proof -
  have "sorted (map f (take n xs) @ map f (drop n xs))"
    using assms by (simp flip: map_append)
  then show ?thesis by (simp add: sorted_append)
qed

lemma sorted_map_slice_to:
  "sorted (map f xs) \<Longrightarrow> sorted (map f (slice_to k xs))"
  by (simp add: slice_to_def sorted_map_take)

subsection \<open>Every result that is returned\<close>










subsection \<open>The claims on the search\<close>



text \<open>
  Claim C7. An empty frame passed to \<open>find_closest_airports\<close> gives the empty frame,
  whatever \<open>k\<close> is, and no exception.
\<close>

theorem find_closest_airports_empty:
  "find_closest_airports [] pin_lat pin_lon k = Inr []"
  by (simp add: find_closest_airports_def slice_to_def loc_def set_distance_km_def)

theorem find_closest_airports_empty_witness:
  "find_closest_airports [] athens_lat athens_lon 3 = Inr []"
  by (rule find_closest_airports_empty)



subsection \<open>Ties\<close>






section \<open>Properties of the radius search\<close>










section \<open>Properties of the counts by country\<close>

lemma set_map_filter_eq:
  "set (List.map_filter g xs) = {y. \<exists>x \<in> set xs. g x = Some y}"
  by (induction xs) (auto split: option.splits)

lemma length_filter_split_key:
  assumes "c \<notin> set ks"
  shows "length (filter (\<lambda>x. f x = Some c \<and> Q x) xs)
         + length (filter (\<lambda>x. f x \<in> Some ` set ks \<and> Q x) xs)
         = length (filter (\<lambda>x. f x \<in> Some ` set (c # ks) \<and> Q x) xs)"
  using assms by (induction xs) auto

lemma count_by_keys:
  "distinct ks \<Longrightarrow>
     sum_list (map (\<lambda>c. length (filter (\<lambda>x. f x = Some c \<and> Q x) xs)) ks)
       = length (filter (\<lambda>x. f x \<in> Some ` set ks \<and> Q x) xs)"
proof (induction ks)
  case Nil
  then show ?case by simp
next
  case (Cons c ks)
  then have "c \<notin> set ks" and IH: "sum_list (map (\<lambda>c. length (filter (\<lambda>x. f x = Some c \<and> Q x) xs)) ks)
       = length (filter (\<lambda>x. f x \<in> Some ` set ks \<and> Q x) xs)"
    by simp_all
  from length_filter_split_key [OF this(1), of f Q xs] IH
  show ?case by simp
qed

lemma groupby_country_count_sum:
  "sum_list (map snd (groupby_country_count df))
     = length (filter (\<lambda>(idx, r). country_name r \<noteq> None \<and> name r \<noteq> None) df)"
proof -
  let ?f = "\<lambda>x. country_name (snd x)"
  let ?Q = "\<lambda>x. name (snd x) \<noteq> None"
  let ?keys = "sort (remdups (List.map_filter (\<lambda>(idx, r). country_name r) df))"
  have keys: "set ?keys = {c. \<exists>x \<in> set df. ?f x = Some c}"
    by (simp add: set_map_filter_eq case_prod_unfold)
  have dk: "distinct ?keys" by simp
  have "sum_list (map snd (groupby_country_count df))
          = sum_list (map (\<lambda>c. length (filter (\<lambda>x. ?f x = Some c \<and> ?Q x) df)) ?keys)"
    by (simp add: groupby_country_count_def Let_def comp_def case_prod_unfold)
  also have "\<dots> = length (filter (\<lambda>x. ?f x \<in> Some ` set ?keys \<and> ?Q x) df)"
    using dk by (rule count_by_keys)
  also have "filter (\<lambda>x. ?f x \<in> Some ` set ?keys \<and> ?Q x) df
           = filter (\<lambda>x. ?f x \<noteq> None \<and> ?Q x) df"
  proof (rule filter_cong [OF refl])
    fix x assume "x \<in> set df"
    then show "(?f x \<in> Some ` set ?keys \<and> ?Q x) = (?f x \<noteq> None \<and> ?Q x)"
      unfolding keys by auto
  qed
  finally show ?thesis
    by (simp add: case_prod_unfold)
qed

lemma sum_list_srt_eq:
  assumes "mset ys = mset xs"
  shows "sum_list (map (f :: 'a \<Rightarrow> nat) ys) = sum_list (map f xs)"
proof -
  have "sum_list (map f ys) = sum_mset (image_mset f (mset ys))"
    by (simp flip: sum_mset_sum_list)
  also have "\<dots> = sum_mset (image_mset f (mset xs))"
    by (simp only: assms)
  also have "\<dots> = sum_list (map f xs)"
    by (simp flip: sum_mset_sum_list)
  finally show ?thesis .
qed

lemma sorted_hd_le:
  "sorted ys \<Longrightarrow> y \<in> set ys \<Longrightarrow> hd ys \<le> (y :: 'a :: linorder)"
  by (cases ys) auto

lemma sorted_le_last:
  "sorted ys \<Longrightarrow> y \<in> set ys \<Longrightarrow> (y :: 'a :: linorder) \<le> last ys"
  by (induction ys) auto

lemma descending_extremes:
  assumes "sorted (rev (map f S))" "S \<noteq> []" "c \<in> set S"
  shows "f (last S) \<le> f c \<and> f c \<le> (f (hd S) :: 'k :: linorder)"
proof -
  let ?ys = "rev (map f S)"
  have mem: "f c \<in> set ?ys" using assms(3) by simp
  have "hd ?ys = f (last S)"
    using assms(2) by (simp add: hd_rev last_map)
  moreover have "last ?ys = f (hd S)"
    using assms(2) by (simp add: last_rev hd_map)
  moreover have "hd ?ys \<le> f c"
    using assms(1) mem by (rule sorted_hd_le)
  moreover have "f c \<le> last ?ys"
    using assms(1) mem by (rule sorted_le_last)
  ultimately show ?thesis by simp
qed

lemma rev_sort_key_is_sort_values: "is_sort_values key False (\<lambda>xs. rev (sort_key key xs))"
  by (simp add: is_sort_values_def rev_map [symmetric])

text \<open>
  Claim C5, as stated, fails: the counts need not sum to the size of the frame. Two
  airports are loaded, one of Greece and one whose country code cell is empty in the
  table, so that it has no country name: the only group is Greece with the count 1,
  before and after the counts are sorted.
\<close>

theorem country_counts_sum_counterexample:
  "map (\<lambda>(idx, r). (name r, country_name r))
     (load_airports [sample_csv_row ''Athens Eleftherios Venizelos'' (Some ''GR''),
                     sample_csv_row ''Unlisted Airstrip'' None] sample_iso_rows)
     = [(Some ''Athens Eleftherios Venizelos'', Some ''Greece''),
        (Some ''Unlisted Airstrip'', None)]
   \<and> groupby_country_count
       (load_airports [sample_csv_row ''Athens Eleftherios Venizelos'' (Some ''GR''),
                       sample_csv_row ''Unlisted Airstrip'' None] sample_iso_rows)
     = [(''Greece'', 1)]
   \<and> sum_list (map snd (groupby_country_count
         (load_airports [sample_csv_row ''Athens Eleftherios Venizelos'' (Some ''GR''),
                         sample_csv_row ''Unlisted Airstrip'' None] sample_iso_rows)))
      \<noteq> length
         (load_airports [sample_csv_row ''Athens Eleftherios Venizelos'' (Some ''GR''),
                         sample_csv_row ''Unlisted Airstrip'' None] sample_iso_rows)
   \<and> sum_list (map snd (country_counts (\<lambda>xs. rev (sort_key snd xs))
         (load_airports [sample_csv_row ''Athens Eleftherios Venizelos'' (Some ''GR''),
                         sample_csv_row ''Unlisted Airstrip'' None] sample_iso_rows)))
      \<noteq> length
         (load_airports [sample_csv_row ''Athens Eleftherios Venizelos'' (Some ''GR''),
                         sample_csv_row ''Unlisted Airstrip'' None] sample_iso_rows)"
  by (simp add: country_counts_def groupby_country_count_def load_airports_def range_index_def
      sample_csv_row_def sample_iso_rows_def iso_map_of_def dict_of_def resolve_country_def
      series_str_upper_def str_upper_def upper_char_def)

text \<open>
  Claim C5, amended. The aggregation groups the rows that have a country name by
  that name; a row without one is in no group. For a frame whose rows all have a
  name, the counts sum to the number of rows that have a country name, which is the
  size of the frame when no country name is missing. The entries that
  \<open>get_country_min_max\<close> reports are groups of the result with the largest and the
  smallest count. For an empty frame, and whenever there is no group, it reports
  \<open>(None, None)\<close> and raises nothing.
\<close>

theorem country_counts_sum_and_extremes:
  assumes "is_sort_values snd False srt"
  shows "((\<forall>(idx, r) \<in> set df. name r \<noteq> None) \<longrightarrow>
             sum_list (map snd (country_counts srt df))
               = length (filter (\<lambda>(idx, r). country_name r \<noteq> None) df))
       \<and> ((\<forall>(idx, r) \<in> set df. name r \<noteq> None \<and> country_name r \<noteq> None) \<longrightarrow>
             sum_list (map snd (country_counts srt df)) = length df)
       \<and> (df = [] \<longrightarrow> get_country_min_max (country_counts srt df) = (None, None))
       \<and> (country_counts srt df = [] \<longrightarrow>
             get_country_min_max (country_counts srt df) = (None, None))
       \<and> (country_counts srt df \<noteq> [] \<longrightarrow>
             (\<exists>mx mn. get_country_min_max (country_counts srt df) = (Some mx, Some mn)
                 \<and> mx \<in> set (groupby_country_count df)
                 \<and> mn \<in> set (groupby_country_count df)
                 \<and> (\<forall>c \<in> set (groupby_country_count df). snd mn \<le> snd c \<and> snd c \<le> snd mx)))"
proof -
  let ?G = "groupby_country_count df"
  let ?S = "country_counts srt df"
  have perm: "mset ?S = mset ?G" and desc: "sorted (rev (map snd ?S))"
    using assms by (simp_all add: is_sort_values_def country_counts_def)
  have sets: "set ?S = set ?G"
    using perm by (rule mset_eq_setD)
  have "sum_list (map snd ?S) = sum_list (map snd ?G)"
    using perm by (rule sum_list_srt_eq)
  then have total: "sum_list (map snd ?S)
      = length (filter (\<lambda>(idx, r). country_name r \<noteq> None \<and> name r \<noteq> None) df)"
    by (simp only: groupby_country_count_sum)
  have named: "sum_list (map snd ?S) = length (filter (\<lambda>(idx, r). country_name r \<noteq> None) df)"
    if "\<forall>(idx, r) \<in> set df. name r \<noteq> None"
  proof -
    from that have "filter (\<lambda>(idx, r). country_name r \<noteq> None \<and> name r \<noteq> None) df
                  = filter (\<lambda>(idx, r). country_name r \<noteq> None) df"
      by (intro filter_cong) auto
    with total show ?thesis by simp
  qed
  have complete: "sum_list (map snd ?S) = length df"
    if "\<forall>(idx, r) \<in> set df. name r \<noteq> None \<and> country_name r \<noteq> None"
  proof -
    from that have "filter (\<lambda>(idx, r). country_name r \<noteq> None \<and> name r \<noteq> None) df = df"
      by (auto simp: filter_id_conv)
    with total show ?thesis by simp
  qed
  have empty_df: "get_country_min_max ?S = (None, None)" if "df = []"
  proof -
    from that have "?G = []" by (simp add: groupby_country_count_def)
    with perm have "?S = []" by simp
    then show ?thesis by (simp add: get_country_min_max_def)
  qed
  have empty_counts: "get_country_min_max ?S = (None, None)" if "?S = []"
    using that by (simp add: get_country_min_max_def)
  have extremes: "\<exists>mx mn. get_country_min_max ?S = (Some mx, Some mn)
                 \<and> mx \<in> set ?G \<and> mn \<in> set ?G
                 \<and> (\<forall>c \<in> set ?G. snd mn \<le> snd c \<and> snd c \<le> snd mx)"
    if ne: "?S \<noteq> []"
  proof -
    have g: "get_country_min_max ?S = (Some (hd ?S), Some (last ?S))"
      using ne by (simp add: get_country_min_max_def)
    have "hd ?S \<in> set ?S" "last ?S \<in> set ?S"
      using ne by simp_all
    then have mem: "hd ?S \<in> set ?G" "last ?S \<in> set ?G"
      by (simp_all only: sets)
    have "\<forall>c \<in> set ?G. snd (last ?S) \<le> snd c \<and> snd c \<le> snd (hd ?S)"
    proof
      fix c assume "c \<in> set ?G"
      then have "c \<in> set ?S" by (simp only: sets)
      with desc ne show "snd (last ?S) \<le> snd c \<and> snd c \<le> snd (hd ?S)"
        by (rule descending_extremes)
    qed
    with g mem show ?thesis by blast
  qed
  show ?thesis
    using named complete empty_df empty_counts extremes by blast
qed

theorem country_counts_sum_and_extremes_witness:
  "is_sort_values snd False (\<lambda>xs :: (string \<times> nat) list. rev (sort_key snd xs))
   \<and> list_all (\<lambda>(idx, r). name r \<noteq> None \<and> country_name r \<noteq> None) sample_frame
   \<and> sum_list (map snd (country_counts (\<lambda>xs. rev (sort_key snd xs)) sample_frame))
       = length (filter (\<lambda>(idx, r). country_name r \<noteq> None) sample_frame)
   \<and> sum_list (map snd (country_counts (\<lambda>xs. rev (sort_key snd xs)) sample_frame))
       = length sample_frame
   \<and> country_counts (\<lambda>xs. rev (sort_key snd xs)) sample_frame \<noteq> []
   \<and> (\<exists>mx mn. get_country_min_max (country_counts (\<lambda>xs. rev (sort_key snd xs)) sample_frame)
                 = (Some mx, Some mn)
          \<and> mx \<in> set (groupby_country_count sample_frame)
          \<and> mn \<in> set (groupby_country_count sample_frame)
          \<and> (\<forall>c \<in> set (groupby_country_count sample_frame). snd mn \<le> snd c \<and> snd c \<le> snd mx))"
proof -
  let ?srt = "\<lambda>xs :: (string \<times> nat) list. rev (sort_key snd xs)"
  have s: "is_sort_values snd False ?srt"
    by (rule rev_sort_key_is_sort_values)
  have all: "list_all (\<lambda>(idx, r). name r \<noteq> None \<and> country_name r \<noteq> None) sample_frame"
    by (simp add: sample_frame_def sample_row_def)
  then have full: "\<forall>(idx, r) \<in> set sample_frame. name r \<noteq> None \<and> country_name r \<noteq> None"
    by (simp add: list_all_iff)
  then have names: "\<forall>(idx, r) \<in> set sample_frame. name r \<noteq> None"
    by auto
  have ne: "country_counts ?srt sample_frame \<noteq> []"
    by (simp add: country_counts_def groupby_country_count_def sample_frame_def sample_row_def)
  note t = country_counts_sum_and_extremes [OF s, of sample_frame]
  from t [THEN conjunct1] names
  have a: "sum_list (map snd (country_counts ?srt sample_frame))
             = length (filter (\<lambda>(idx, r). country_name r \<noteq> None) sample_frame)"
    by (rule mp)
  from t [THEN conjunct2, THEN conjunct1] full
  have b: "sum_list (map snd (country_counts ?srt sample_frame)) = length sample_frame"
    by (rule mp)
  from t [THEN conjunct2, THEN conjunct2, THEN conjunct2, THEN conjunct2] ne
  have e: "\<exists>mx mn. get_country_min_max (country_counts ?srt sample_frame) = (Some mx, Some mn)
          \<and> mx \<in> set (groupby_country_count sample_frame)
          \<and> mn \<in> set (groupby_country_count sample_frame)
          \<and> (\<forall>c \<in> set (groupby_country_count sample_frame). snd mn \<le> snd c \<and> snd c \<le> snd mx)"
    by (rule mp)
  show ?thesis
    by (intro conjI s all a b ne e)
qed

section \<open>Properties of loading\<close>

lemma load_airports_country_name:
  assumes "(idx, r) \<in> set (load_airports csv_rows iso_rows)"
  shows "country_name r = resolve_country (iso_map_of iso_rows) (iso_country r)"
  using assms
  by (auto simp: load_airports_def Let_def set_map_filter_eq split: option.splits)

text \<open>
  Claim C8, as stated, fails: a code without an entry in the map does not pass through
  unchanged. The code \<^verbatim>\<open>xk\<close> has no entry, neither as it is nor upper-cased, and the
  country name of its row is \<^verbatim>\<open>XK\<close>, not the raw code.
\<close>

theorem load_airports_raw_code_counterexample:
  "iso_map_of sample_iso_rows (Some ''xk'') = None
   \<and> iso_map_of sample_iso_rows (Some ''XK'') = None
   \<and> map (\<lambda>(idx, r). (iso_country r, country_name r))
        (load_airports [sample_csv_row ''Pristina'' (Some ''xk'')] sample_iso_rows)
      = [(Some ''xk'', Some ''XK'')]
   \<and> (\<exists>(idx, r) \<in> set (load_airports [sample_csv_row ''Pristina'' (Some ''xk'')]
                                      sample_iso_rows).
         country_name r \<noteq> iso_country r)"
  by (simp add: load_airports_def range_index_def sample_csv_row_def sample_iso_rows_def iso_map_of_def dict_of_def
      resolve_country_def series_str_upper_def str_upper_def upper_char_def)

text \<open>
  Claim C8, amended. During loading, a country code whose upper-cased form has no
  entry in the code-to-name map passes through upper-cased, as that code in the
  \<open>country_name\<close> field: nothing fails and the field is not missing. A code that is
  already in upper case passes through unchanged.
\<close>

theorem load_airports_unmapped_code:
  assumes "(idx, r) \<in> set (load_airports csv_rows iso_rows)"
    and "iso_country r = Some code"
    and "iso_map_of iso_rows (Some (str_upper code)) = None"
  shows "country_name r = Some (str_upper code)
       \<and> (str_upper code = code \<longrightarrow> country_name r = iso_country r)"
proof -
  have "country_name r = resolve_country (iso_map_of iso_rows) (Some code)"
    using load_airports_country_name [OF assms(1)] assms(2) by simp
  also have "\<dots> = Some (str_upper code)"
    using assms(3) by (simp add: resolve_country_def series_str_upper_def)
  finally show ?thesis
    using assms(2) by simp
qed

theorem load_airports_unmapped_code_witness:
  "hd (load_airports [sample_csv_row ''Pristina'' (Some ''XK'')] sample_iso_rows)
     \<in> set (load_airports [sample_csv_row ''Pristina'' (Some ''XK'')] sample_iso_rows)
   \<and> iso_country (snd (hd (load_airports [sample_csv_row ''Pristina'' (Some ''XK'')]
                                           sample_iso_rows))) = Some ''XK''
   \<and> iso_map_of sample_iso_rows (Some (str_upper ''XK'')) = None
   \<and> str_upper ''XK'' = ''XK''
   \<and> country_name (snd (hd (load_airports [sample_csv_row ''Pristina'' (Some ''XK'')]
                                            sample_iso_rows))) = Some ''XK''"
proof -
  let ?L = "load_airports [sample_csv_row ''Pristina'' (Some ''XK'')] sample_iso_rows"
  have up: "str_upper ''XK'' = ''XK''"
    by (simp add: str_upper_def upper_char_def)
  have m: "(fst (hd ?L), snd (hd ?L)) \<in> set ?L"
    by (simp add: load_airports_def range_index_def sample_csv_row_def)
  have c: "iso_country (snd (hd ?L)) = Some ''XK''"
    by (simp add: load_airports_def range_index_def sample_csv_row_def)
  have e: "iso_map_of sample_iso_rows (Some (str_upper ''XK'')) = None"
    by (simp add: up sample_iso_rows_def iso_map_of_def dict_of_def series_str_upper_def str_upper_def upper_char_def)
  from load_airports_unmapped_code [OF m c e] m c e up
  show ?thesis by simp
qed

subsection \<open>The index labels of the frames of the program are unique\<close>

lemma map_filter_labels:
  assumes "\<And>idx r y. g (idx, r) = Some y \<Longrightarrow> fst y = idx"
  shows "map fst (List.map_filter g xs) = map fst (filter (\<lambda>x. g x \<noteq> None) xs)"
proof (induction xs)
  case Nil
  then show ?case by simp
next
  case (Cons x xs)
  obtain idx r where x: "x = (idx, r)" by (cases x)
  show ?case
  proof (cases "g x")
    case None
    with Cons show ?thesis by simp
  next
    case (Some y)
    with x assms have "fst y = idx" by blast
    with Some Cons x show ?thesis by simp
  qed
qed

lemma range_index_unique: "unique_index (range_index rows)"
  by (simp add: unique_index_def range_index_def distinct_map)

lemma load_airports_unique_index: "unique_index (load_airports csv_rows iso_rows)"
proof -
  let ?g = "\<lambda>(idx, r).
              case (csv_latitude_deg r, csv_longitude_deg r) of
                (Some lat, Some lon) \<Rightarrow>
                  Some (idx, \<lparr> name = csv_name r, airport_type = csv_type r,
                               continent = csv_continent r, iso_country = csv_iso_country r,
                               municipality = csv_municipality r,
                               latitude_deg = lat, longitude_deg = lon,
                               country_name = resolve_country (iso_map_of iso_rows) (csv_iso_country r),
                               is_large = large_flag (csv_type r) \<rparr>)
              | _ \<Rightarrow> None"
  have "map fst (List.map_filter ?g (range_index csv_rows))
          = map fst (filter (\<lambda>x. ?g x \<noteq> None) (range_index csv_rows))"
    by (rule map_filter_labels) (auto split: option.splits)
  moreover have "distinct (map fst (filter (\<lambda>x. ?g x \<noteq> None) (range_index csv_rows)))"
    using range_index_unique [of csv_rows]
    by (simp add: unique_index_def distinct_map_filter)
  ultimately show ?thesis
    by (simp add: unique_index_def load_airports_def Let_def)
qed

lemma boolean_mask_unique_index: "unique_index df \<Longrightarrow> unique_index (boolean_mask P df)"
  by (simp add: unique_index_def boolean_mask_def distinct_map_filter)


end
